theory Spec2Isabelle
  imports Main "HOL-Library.Word" "HOL-Library.Sublist"
begin

section \<open>JavaScript values\<close>

text \<open>
  A JavaScript string is a sequence of UTF-16 code units. The literals of \<^verbatim>\<open>Bot.jsx\<close> are
  ASCII apart from the warning sign of the fallback text, so \<open>js\<close> writes an ASCII literal as
  code units.
\<close>

type_synonym jsstring = "16 word list"

definition js :: "string \<Rightarrow> jsstring" where
  "js cs = map (\<lambda>c. of_nat (of_char c)) cs"

text \<open>
  The values that can reach the component's state: what \<^verbatim>\<open>JSON.parse\<close> produces, the raw
  string axios leaves in \<^verbatim>\<open>response.data\<close> when the body is not JSON, and \<^verbatim>\<open>undefined\<close>,
  the result of reading a property that is not there. The component never computes with a
  number, it only stores and shows it, so the payload of \<open>Num\<close> stands for the number as
  parsed. An object is the list of its own properties (keys distinct, as parsed).
\<close>

datatype jsval =
    Undefined
  | Null
  | Bool bool
  | Num int
  | Str jsstring
  | Arr "jsval list"
  | Obj "(jsstring \<times> jsval) list"

datatype exn = AxiosError | TypeError

text \<open>
  Property read \<^verbatim>\<open>v.k\<close> for a name \<open>k\<close> that no built-in prototype defines (the two names
  read by the component are \<^verbatim>\<open>session_id\<close> and \<^verbatim>\<open>text_response\<close>): reading from
  \<^verbatim>\<open>undefined\<close> or \<^verbatim>\<open>null\<close> throws a TypeError, an object gives its own property or
  \<^verbatim>\<open>undefined\<close>, every other value gives \<^verbatim>\<open>undefined\<close>.
\<close>

fun member :: "jsval \<Rightarrow> jsstring \<Rightarrow> exn + jsval" where
  "member Undefined k = Inl TypeError"
| "member Null k = Inl TypeError"
| "member (Obj kvs) k = (case map_of kvs k of Some v \<Rightarrow> Inr v | None \<Rightarrow> Inr Undefined)"
| "member v k = Inr Undefined"

text \<open>
  \<^verbatim>\<open>String.prototype.trim\<close> removes the leading and trailing code units that are WhiteSpace
  or LineTerminator in ECMAScript.
\<close>

definition is_ws :: "16 word \<Rightarrow> bool" where
  "is_ws c \<longleftrightarrow>
     c = 0x0009 \<or> c = 0x000A \<or> c = 0x000B \<or> c = 0x000C \<or> c = 0x000D \<or> c = 0x0020 \<or>
     c = 0x00A0 \<or> c = 0x1680 \<or> (0x2000 \<le> c \<and> c \<le> 0x200A) \<or> c = 0x2028 \<or> c = 0x2029 \<or>
     c = 0x202F \<or> c = 0x205F \<or> c = 0x3000 \<or> c = 0xFEFF"

definition trim :: "jsstring \<Rightarrow> jsstring" where
  "trim s = rev (dropWhile is_ws (rev (dropWhile is_ws s)))"

section \<open>The state of the component\<close>

datatype Role = user | assistant

record Message =
  role :: Role
  msg_text :: jsval

text \<open>
  What the component does to the outside, in the order it does it: the calls of the five
  state setters (with the value set), the requests handed to axios, and the settling of a
  request.
\<close>

record AxiosResponse =
  status :: nat
  data :: jsval

datatype reply = NetworkError | Replied AxiosResponse

datatype effect =
    SetMessages "Message list"
  | SetSubject jsstring
  | SetInput jsstring
  | SetSessionId jsval
  | SetLoading bool
  | Post jsstring jsval
  | Settled reply

text \<open>
  The five \<^verbatim>\<open>useState\<close> cells of \<^verbatim>\<open>Bot\<close>, and the effects so far. An event handler reads
  the cells of the latest render, which is the state it is applied to.
\<close>

record Bot =
  messages :: "Message list"
  subject :: jsstring
  input :: jsstring
  sessionId :: jsval
  loading :: bool
  log :: "effect list"

definition initial :: Bot where
  "initial = \<lparr>messages = [], subject = js ''Physics'', input = [], sessionId = Null,
     loading = False, log = []\<rparr>"

definition API_BASE_URL :: jsstring where
  "API_BASE_URL = js ''http://localhost:8000''"

definition subjects :: "jsstring list" where
  "subjects = [js ''Physics'', js ''Chemistry'', js ''Mathematics'', js ''Biology'']"

definition setMessages :: "(Message list \<Rightarrow> Message list) \<Rightarrow> Bot \<Rightarrow> Bot" where
  "setMessages f s = s\<lparr>messages := f (messages s), log := log s @ [SetMessages (f (messages s))]\<rparr>"

definition setSubject :: "jsstring \<Rightarrow> Bot \<Rightarrow> Bot" where
  "setSubject v s = s\<lparr>subject := v, log := log s @ [SetSubject v]\<rparr>"

definition setInput :: "jsstring \<Rightarrow> Bot \<Rightarrow> Bot" where
  "setInput v s = s\<lparr>input := v, log := log s @ [SetInput v]\<rparr>"

definition setSessionId :: "jsval \<Rightarrow> Bot \<Rightarrow> Bot" where
  "setSessionId v s = s\<lparr>sessionId := v, log := log s @ [SetSessionId v]\<rparr>"

definition setLoading :: "bool \<Rightarrow> Bot \<Rightarrow> Bot" where
  "setLoading v s = s\<lparr>loading := v, log := log s @ [SetLoading v]\<rparr>"

section \<open>axios\<close>

text \<open>
  \<^verbatim>\<open>axios.post(url, body)\<close> hands one request to the network. The promise it returns is
  rejected on a network error and, with the default \<^verbatim>\<open>validateStatus\<close>, on a status outside
  200..299; otherwise it is fulfilled with the response.
\<close>

definition axios_post :: "jsstring \<Rightarrow> jsval \<Rightarrow> Bot \<Rightarrow> Bot" where
  "axios_post url body s = s\<lparr>log := log s @ [Post url body]\<rparr>"

fun await_post :: "reply \<Rightarrow> exn + AxiosResponse" where
  "await_post NetworkError = Inl AxiosError"
| "await_post (Replied response) =
     (if 200 \<le> status response \<and> status response < 300 then Inr response else Inl AxiosError)"

section \<open>sendMessage\<close>

text \<open>
  An \<^verbatim>\<open>async\<close> function runs until it returns or reaches an \<^verbatim>\<open>await\<close> on a pending
  promise; the rest runs when the promise settles.
\<close>

datatype 'a async = Returned 'a | Awaiting 'a

fun now :: "'a async \<Rightarrow> 'a" where
  "now (Returned s) = s"
| "now (Awaiting s) = s"

definition fallback :: jsstring where
  "fallback = [0x26A0, 0xFE0F] @ js '' Unable to reach Atomia API. Please try again.''"

definition sendMessage :: "Bot \<Rightarrow> Bot async" where
  "sendMessage s =
     (if trim (input s) = [] then Returned s
      else
        let userMsg = \<lparr>role = user, msg_text = Str (input s)\<rparr>;
            s1 = setMessages (\<lambda>prev. prev @ [userMsg]) s;
            s2 = setInput [] s1;
            s3 = setLoading True s2
        in Awaiting (axios_post (API_BASE_URL @ js ''/chat'')
             (Obj [(js ''session_id'', sessionId s),
                   (js ''message'', Str (input s)),
                   (js ''subject'', Str (subject s))]) s3))"

text \<open>
  The body of \<^verbatim>\<open>try\<close> after the promise has settled: the exception it ends with, if any,
  and the state it leaves.
\<close>

definition try_block :: "reply \<Rightarrow> Bot \<Rightarrow> exn option \<times> Bot" where
  "try_block r s =
     (case await_post r of
        Inl e \<Rightarrow> (Some e, s)
      | Inr response \<Rightarrow>
          (case member (data response) (js ''session_id'') of
             Inl e \<Rightarrow> (Some e, s)
           | Inr sid \<Rightarrow>
               let s1 = setSessionId sid s in
               (case member (data response) (js ''text_response'') of
                  Inl e \<Rightarrow> (Some e, s1)
                | Inr t \<Rightarrow>
                    let botMsg = \<lparr>role = assistant, msg_text = t\<rparr>
                    in (None, setMessages (\<lambda>prev. prev @ [botMsg]) s1))))"

definition catch_block :: "Bot \<Rightarrow> Bot" where
  "catch_block s =
     setMessages (\<lambda>prev. prev @ [\<lparr>role = assistant, msg_text = Str fallback\<rparr>]) s"

definition sendMessage_resume :: "reply \<Rightarrow> Bot \<Rightarrow> Bot" where
  "sendMessage_resume r s =
     (let (e, s1) = try_block r s;
          s2 = (case e of Some err \<Rightarrow> catch_block s1 | None \<Rightarrow> s1)
      in setLoading False s2)"

text \<open>One exchange with nothing else happening in between: the call, then the reply.\<close>

definition submit :: "reply \<Rightarrow> Bot \<Rightarrow> Bot" where
  "submit r s =
     (case sendMessage s of Returned s' \<Rightarrow> s' | Awaiting s' \<Rightarrow> sendMessage_resume r s')"

section \<open>The events of the page\<close>

definition handleKeyDown :: "jsstring \<Rightarrow> Bot \<Rightarrow> Bot" where
  "handleKeyDown key s = (if key = js ''Enter'' then now (sendMessage s) else s)"

definition posts :: "effect list \<Rightarrow> (jsstring \<times> jsval) list" where
  "posts es = concat (map (\<lambda>e. case e of Post url body \<Rightarrow> [(url, body)] | _ \<Rightarrow> []) es)"

definition settles :: "effect list \<Rightarrow> reply list" where
  "settles es = concat (map (\<lambda>e. case e of Settled r \<Rightarrow> [r] | _ \<Rightarrow> []) es)"

text \<open>The requests issued and not yet settled.\<close>

definition inflight :: "Bot \<Rightarrow> nat" where
  "inflight s = length (posts (log s)) - length (settles (log s))"

text \<open>
  \<open>Change v\<close>: the input field's \<^verbatim>\<open>onChange\<close> with \<^verbatim>\<open>e.target.value = v\<close>.
  \<open>KeyDown k\<close>: its \<^verbatim>\<open>onKeyDown\<close> with \<^verbatim>\<open>e.key = k\<close>.
  \<open>ClickSend\<close>: a click on the send button, which is rendered with
  \<^verbatim>\<open>disabled={loading}\<close>; a disabled button dispatches no click.
  \<open>ClickSubject i\<close>: a click on the \<open>i\<close>-th subject button; there is one button for each
  element of \<open>subjects\<close>.
  \<open>Settle r\<close>: a pending request settles with \<open>r\<close>; every pending continuation of
  \<^verbatim>\<open>sendMessage\<close> is the same code, and it reads none of the variables of its call.
\<close>

datatype event =
    Change jsstring
  | KeyDown jsstring
  | ClickSend
  | ClickSubject nat
  | Settle reply

fun step :: "event \<Rightarrow> Bot \<Rightarrow> Bot" where
  "step (Change v) s = setInput v s"
| "step (KeyDown k) s = handleKeyDown k s"
| "step ClickSend s = (if loading s then s else now (sendMessage s))"
| "step (ClickSubject i) s = (if i < length subjects then setSubject (subjects ! i) s else s)"
| "step (Settle r) s =
     (if inflight s = 0 then s else sendMessage_resume r (s\<lparr>log := log s @ [Settled r]\<rparr>))"

fun run :: "event list \<Rightarrow> Bot \<Rightarrow> Bot" where
  "run [] s = s"
| "run (e # es) s = run es (step e s)"

section \<open>Failing replies\<close>

text \<open>
  The replies on which the exchange fails: no response at all, a response with a status
  outside 200..299, or a response whose data is \<^verbatim>\<open>null\<close> or \<^verbatim>\<open>undefined\<close>.
\<close>

fun failing :: "reply \<Rightarrow> bool" where
  "failing NetworkError = True"
| "failing (Replied response) =
     (status response < 200 \<or> 300 \<le> status response
      \<or> data response = Null \<or> data response = Undefined)"

section \<open>Trimming\<close>

lemma trim_Nil_iff: "trim x = [] \<longleftrightarrow> (\<forall>c \<in> set x. is_ws c)"
proof
  assume "trim x = []"
  then have "dropWhile is_ws (rev (dropWhile is_ws x)) = []"
    by (simp add: trim_def)
  then have all: "\<forall>c \<in> set (dropWhile is_ws x). is_ws c"
    by simp
  have "dropWhile is_ws x = []"
  proof (cases "dropWhile is_ws x")
    case Nil
    then show ?thesis .
  next
    case (Cons c cs)
    then have "\<not> is_ws c"
      using hd_dropWhile [of is_ws x] by simp
    with all Cons show ?thesis by simp
  qed
  then show "\<forall>c \<in> set x. is_ws c"
    by simp
next
  assume "\<forall>c \<in> set x. is_ws c"
  then have d: "dropWhile is_ws x = []"
    by simp
  show "trim x = []"
    unfolding trim_def d by simp
qed

section \<open>The effect log\<close>

lemma posts_append: "posts (xs @ ys) = posts xs @ posts ys"
  by (simp add: posts_def)

lemma settles_append: "settles (xs @ ys) = settles xs @ settles ys"
  by (simp add: settles_def)

lemma posts_simps:
  "posts [] = []"
  "posts (Post u b # es) = (u, b) # posts es"
  "posts (SetMessages ms # es) = posts es"
  "posts (SetSubject v # es) = posts es"
  "posts (SetInput v # es) = posts es"
  "posts (SetSessionId w # es) = posts es"
  "posts (SetLoading l # es) = posts es"
  "posts (Settled r # es) = posts es"
  by (simp_all add: posts_def)

lemma settles_simps:
  "settles [] = []"
  "settles (Settled r # es) = r # settles es"
  "settles (SetMessages ms # es) = settles es"
  "settles (SetSubject v # es) = settles es"
  "settles (SetInput v # es) = settles es"
  "settles (SetSessionId w # es) = settles es"
  "settles (SetLoading l # es) = settles es"
  "settles (Post u b # es) = settles es"
  by (simp_all add: settles_def)

section \<open>The two halves of sendMessage\<close>

text \<open>
  The call, up to the \<^verbatim>\<open>await\<close>: nothing when the input is blank; otherwise three setter
  calls and one request, built from the state of the render the handler belongs to.
\<close>

lemma sendMessage_blank: "trim (input s) = [] \<Longrightarrow> sendMessage s = Returned s"
  by (simp add: sendMessage_def)

lemma sendMessage_nonblank:
  assumes "trim (input s) \<noteq> []"
  shows "sendMessage s = Awaiting (s\<lparr>messages := messages s @ [\<lparr>role = user, msg_text = Str (input s)\<rparr>],
     input := [], loading := True,
     log := log s @ [SetMessages (messages s @ [\<lparr>role = user, msg_text = Str (input s)\<rparr>]),
       SetInput [], SetLoading True,
       Post (API_BASE_URL @ js ''/chat'')
         (Obj [(js ''session_id'', sessionId s), (js ''message'', Str (input s)),
               (js ''subject'', Str (subject s))])]\<rparr>)"
  using assms
  by (simp add: sendMessage_def Let_def setMessages_def setInput_def setLoading_def axios_post_def)

lemma now_sendMessage_messages:
  "\<exists>ys. messages (now (sendMessage s)) = messages s @ ys"
  by (cases "trim (input s) = []") (simp_all add: sendMessage_blank sendMessage_nonblank)

lemma now_sendMessage_posts:
  "posts (log (now (sendMessage s))) = posts (log s)
   \<or> posts (log (now (sendMessage s))) = posts (log s) @
        [(API_BASE_URL @ js ''/chat'',
          Obj [(js ''session_id'', sessionId s), (js ''message'', Str (input s)),
               (js ''subject'', Str (subject s))])]"
  by (cases "trim (input s) = []")
    (simp_all add: sendMessage_blank sendMessage_nonblank posts_append posts_simps)

lemma now_sendMessage_subject: "subject (now (sendMessage s)) = subject s"
  by (cases "trim (input s) = []") (simp_all add: sendMessage_blank sendMessage_nonblank)

text \<open>
  The continuation: the \<^verbatim>\<open>catch\<close> branch runs when the promise is rejected or when
  \<^verbatim>\<open>data.session_id\<close> throws; otherwise both setters of the \<^verbatim>\<open>try\<close> body run. In
  every case it touches neither the subject nor the input field, issues no request and
  appends one message.
\<close>

lemma resume_caught:
  assumes "await_post r = Inl e
    \<or> (\<exists>response e'. await_post r = Inr response \<and> member (data response) (js ''session_id'') = Inl e')"
  shows "sendMessage_resume r s =
    s\<lparr>messages := messages s @ [\<lparr>role = assistant, msg_text = Str fallback\<rparr>],
      loading := False,
      log := log s @ [SetMessages (messages s @ [\<lparr>role = assistant, msg_text = Str fallback\<rparr>]),
        SetLoading False]\<rparr>"
  using assms
  by (auto simp add: sendMessage_resume_def try_block_def catch_block_def setMessages_def
      setLoading_def)

lemma resume_fulfilled:
  assumes "await_post r = Inr response"
    and "member (data response) (js ''session_id'') = Inr sid"
    and "member (data response) (js ''text_response'') = Inr t"
  shows "sendMessage_resume r s =
    s\<lparr>messages := messages s @ [\<lparr>role = assistant, msg_text = t\<rparr>],
      sessionId := sid, loading := False,
      log := log s @ [SetSessionId sid,
        SetMessages (messages s @ [\<lparr>role = assistant, msg_text = t\<rparr>]), SetLoading False]\<rparr>"
  using assms
  by (simp add: sendMessage_resume_def try_block_def Let_def setMessages_def setSessionId_def
      setLoading_def)

lemma member_not_nullish:
  assumes "d \<noteq> Null" and "d \<noteq> Undefined"
  shows "member d k = Inr (case d of
      Obj kvs \<Rightarrow> (case map_of kvs k of Some v \<Rightarrow> v | None \<Rightarrow> Undefined)
    | _ \<Rightarrow> Undefined)"
  by (cases d) (use assms in \<open>simp_all split: option.splits\<close>)

lemma failing_caught:
  assumes "failing r"
  shows "(\<exists>e. await_post r = Inl e)
    \<or> (\<exists>response e'. await_post r = Inr response \<and> member (data response) (js ''session_id'') = Inl e')"
proof (cases r)
  case NetworkError
  then show ?thesis by simp
next
  case (Replied response)
  with assms show ?thesis by auto
qed

lemma resume_frame:
  "subject (sendMessage_resume r s) = subject s"
  "input (sendMessage_resume r s) = input s"
  "posts (log (sendMessage_resume r s)) = posts (log s)"
  by (simp_all add: sendMessage_resume_def try_block_def catch_block_def Let_def setMessages_def
      setSessionId_def setLoading_def posts_append posts_simps split: sum.splits)

lemma resume_messages:
  "\<exists>m. messages (sendMessage_resume r s) = messages s @ [m]"
  by (simp add: sendMessage_resume_def try_block_def catch_block_def Let_def setMessages_def
      setSessionId_def setLoading_def split: sum.splits)

lemma submit_posts:
  assumes "trim (input s) \<noteq> []"
  shows "posts (log (submit r s)) = posts (log s) @
    [(API_BASE_URL @ js ''/chat'',
      Obj [(js ''session_id'', sessionId s), (js ''message'', Str (input s)),
           (js ''subject'', Str (subject s))])]"
  by (simp add: submit_def sendMessage_nonblank [OF assms] resume_frame posts_append posts_simps)

section \<open>One event\<close>

lemma step_messages: "\<exists>ys. messages (step e s) = messages s @ ys"
proof (cases e)
  case (Change v)
  then show ?thesis by (simp add: setInput_def)
next
  case (KeyDown k)
  then show ?thesis
    using now_sendMessage_messages [of s] by (simp add: handleKeyDown_def)
next
  case ClickSend
  then show ?thesis
    using now_sendMessage_messages [of s] by simp
next
  case (ClickSubject i)
  then show ?thesis by (simp add: setSubject_def)
next
  case (Settle r)
  then show ?thesis
    using resume_messages [of r "s\<lparr>log := log s @ [Settled r]\<rparr>"] by auto
qed

lemma step_posts:
  "posts (log (step e s)) = posts (log s)
   \<or> posts (log (step e s)) = posts (log s) @
        [(API_BASE_URL @ js ''/chat'',
          Obj [(js ''session_id'', sessionId s), (js ''message'', Str (input s)),
               (js ''subject'', Str (subject s))])]"
proof (cases e)
  case (Change v)
  then show ?thesis by (simp add: setInput_def posts_append posts_simps)
next
  case (KeyDown k)
  then show ?thesis
    using now_sendMessage_posts [of s] by (simp add: handleKeyDown_def)
next
  case ClickSend
  then show ?thesis
    using now_sendMessage_posts [of s] by simp
next
  case (ClickSubject i)
  then show ?thesis by (simp add: setSubject_def posts_append posts_simps)
next
  case (Settle r)
  then show ?thesis
    by (simp add: resume_frame posts_append posts_simps)
qed

lemma step_subject:
  assumes "\<forall>i. e \<noteq> ClickSubject i"
  shows "subject (step e s) = subject s"
proof (cases e)
  case (Change v)
  then show ?thesis by (simp add: setInput_def)
next
  case (KeyDown k)
  then show ?thesis by (simp add: handleKeyDown_def now_sendMessage_subject)
next
  case ClickSend
  then show ?thesis by (simp add: now_sendMessage_subject)
next
  case (ClickSubject i)
  with assms show ?thesis by simp
next
  case (Settle r)
  then show ?thesis by (simp add: resume_frame)
qed

lemma request_subject:
  "member (Obj [(js ''session_id'', a), (js ''message'', b), (js ''subject'', c)]) (js ''subject'')
    = Inr c"
  by (simp add: js_def)

section \<open>Runs of events\<close>

lemma run_messages: "prefix (messages s) (messages (run es s))"
proof (induction es arbitrary: s)
  case Nil
  then show ?case by simp
next
  case (Cons e es)
  have "prefix (messages s) (messages (step e s))"
    using step_messages [of e s] by (auto simp add: prefix_def)
  also have "prefix (messages (step e s)) (messages (run es (step e s)))"
    by (rule Cons.IH)
  finally show ?case by simp
qed

lemma fold_append_messages:
  "messages (fold (\<lambda>m. setMessages (\<lambda>prev. prev @ [m])) ms s) = messages s @ ms"
  by (induction ms arbitrary: s) (simp_all add: setMessages_def)

lemma run_subject_untouched:
  assumes "\<forall>i. ClickSubject i \<notin> set es"
    and "subject s = v"
    and "list_all (\<lambda>(url, body). member body (js ''subject'') = Inr (Str v)) (posts (log s))"
  shows "list_all (\<lambda>(url, body). member body (js ''subject'') = Inr (Str v))
    (posts (log (run es s)))"
  using assms
proof (induction es arbitrary: s)
  case Nil
  then show ?case by simp
next
  case (Cons e es)
  from Cons.prems(1) have e: "\<forall>i. e \<noteq> ClickSubject i" and es: "\<forall>i. ClickSubject i \<notin> set es"
    by auto
  have sub: "subject (step e s) = v"
    using step_subject [OF e, of s] Cons.prems(2) by simp
  have "list_all (\<lambda>(url, body). member body (js ''subject'') = Inr (Str v))
    (posts (log (step e s)))"
    using step_posts [of e s]
  proof
    assume "posts (log (step e s)) = posts (log s)"
    with Cons.prems(3) show ?thesis by simp
  next
    assume a: "posts (log (step e s)) = posts (log s) @
        [(API_BASE_URL @ js ''/chat'',
          Obj [(js ''session_id'', sessionId s), (js ''message'', Str (input s)),
               (js ''subject'', Str (subject s))])]"
    show ?thesis
      unfolding a using Cons.prems(2,3) by (simp add: request_subject del: member.simps)
  qed
  from Cons.IH [OF es sub this] show ?case by simp
qed

section \<open>Failed exchanges\<close>

text \<open>
  C1, as stated, fails: a response with status 200 whose payload lacks both fields (here
  \<^verbatim>\<open>{error: "bad"}\<close>) does not reach the \<^verbatim>\<open>catch\<close> branch. After submitting \<open>X\<close> from
  the initial state the transcript ends with an assistant record whose text is
  \<^verbatim>\<open>undefined\<close>, not with the fallback record, and the stored session identifier has
  changed from \<^verbatim>\<open>null\<close> to \<^verbatim>\<open>undefined\<close>.
\<close>

theorem submit_malformed_counterexample:
  "messages (submit (Replied \<lparr>status = 200, data = Obj [(js ''error'', Str (js ''bad''))]\<rparr>)
       (initial\<lparr>input := js ''X''\<rparr>))
     = [\<lparr>role = user, msg_text = Str (js ''X'')\<rparr>, \<lparr>role = assistant, msg_text = Undefined\<rparr>]
   \<and> messages (submit (Replied \<lparr>status = 200, data = Obj [(js ''error'', Str (js ''bad''))]\<rparr>)
       (initial\<lparr>input := js ''X''\<rparr>))
     \<noteq> [\<lparr>role = user, msg_text = Str (js ''X'')\<rparr>, \<lparr>role = assistant, msg_text = Str fallback\<rparr>]
   \<and> sessionId (initial\<lparr>input := js ''X''\<rparr>) = Null
   \<and> sessionId (submit (Replied \<lparr>status = 200, data = Obj [(js ''error'', Str (js ''bad''))]\<rparr>)
       (initial\<lparr>input := js ''X''\<rparr>)) = Undefined"
  by (simp add: submit_def sendMessage_def sendMessage_resume_def try_block_def Let_def
      setMessages_def setInput_def setLoading_def setSessionId_def axios_post_def initial_def
      trim_def is_ws_def js_def)

text \<open>
  C1, amended: for every submit whose input trims non-empty, when the exchange fails by a
  network error, by a status outside 200..299, or by response data that is \<^verbatim>\<open>null\<close> or
  \<^verbatim>\<open>undefined\<close>, the transcript is the previous one followed by the user record and the
  fixed fallback assistant record (the user record is not rolled back), the stored session
  identifier is unchanged, and the busy flag ends false. Every other reply, a response with
  a status in 200..299 and any other data (an object with or without the fields, a raw
  string, a number, a boolean, an array), takes the success path: the transcript is the
  previous one followed by the user record and an assistant record whose text is
  \<^verbatim>\<open>data.text_response\<close>, the stored session identifier becomes \<^verbatim>\<open>data.session_id\<close>
  (each \<^verbatim>\<open>undefined\<close> when the data is no object or the object lacks the field), and the
  busy flag ends false. The witness takes a network error and the raw string
  \<^verbatim>\<open><html>\<close> with status 200.
\<close>

theorem submit_outcome:
  assumes "trim (input s) \<noteq> []"
  shows "(failing r \<longrightarrow>
      messages (submit r s) = messages s @
        [\<lparr>role = user, msg_text = Str (input s)\<rparr>, \<lparr>role = assistant, msg_text = Str fallback\<rparr>]
      \<and> sessionId (submit r s) = sessionId s
      \<and> \<not> loading (submit r s))
    \<and> (\<forall>response. r = Replied response \<and> \<not> failing r \<longrightarrow>
      messages (submit r s) = messages s @
        [\<lparr>role = user, msg_text = Str (input s)\<rparr>,
         \<lparr>role = assistant, msg_text =
            (case data response of
               Obj kvs \<Rightarrow>
                 (case map_of kvs (js ''text_response'') of Some v \<Rightarrow> v | None \<Rightarrow> Undefined)
             | _ \<Rightarrow> Undefined)\<rparr>]
      \<and> sessionId (submit r s) =
            (case data response of
               Obj kvs \<Rightarrow>
                 (case map_of kvs (js ''session_id'') of Some v \<Rightarrow> v | None \<Rightarrow> Undefined)
             | _ \<Rightarrow> Undefined)
      \<and> \<not> loading (submit r s))"
proof -
  have failed: "messages (submit r s) = messages s @
        [\<lparr>role = user, msg_text = Str (input s)\<rparr>, \<lparr>role = assistant, msg_text = Str fallback\<rparr>]
      \<and> sessionId (submit r s) = sessionId s
      \<and> \<not> loading (submit r s)"
    if f: "failing r"
  proof -
    from failing_caught [OF f] obtain e where
      "await_post r = Inl e
        \<or> (\<exists>response e'. await_post r = Inr response
              \<and> member (data response) (js ''session_id'') = Inl e')"
      by blast
    then show ?thesis
      by (simp add: submit_def sendMessage_nonblank [OF assms] resume_caught)
  qed
  have fulfilled: "messages (submit r s) = messages s @
        [\<lparr>role = user, msg_text = Str (input s)\<rparr>,
         \<lparr>role = assistant, msg_text =
            (case data response of
               Obj kvs \<Rightarrow>
                 (case map_of kvs (js ''text_response'') of Some v \<Rightarrow> v | None \<Rightarrow> Undefined)
             | _ \<Rightarrow> Undefined)\<rparr>]
      \<and> sessionId (submit r s) =
            (case data response of
               Obj kvs \<Rightarrow>
                 (case map_of kvs (js ''session_id'') of Some v \<Rightarrow> v | None \<Rightarrow> Undefined)
             | _ \<Rightarrow> Undefined)
      \<and> \<not> loading (submit r s)"
    if h: "r = Replied response \<and> \<not> failing r" for response
  proof -
    from h have a: "await_post r = Inr response"
      and nn: "data response \<noteq> Null" "data response \<noteq> Undefined"
      by auto
    note m1 = member_not_nullish [OF nn, of "js ''session_id''"]
    note m2 = member_not_nullish [OF nn, of "js ''text_response''"]
    show ?thesis
      by (simp add: submit_def sendMessage_nonblank [OF assms] resume_fulfilled [OF a m1 m2])
  qed
  from failed fulfilled show ?thesis
    by blast
qed

theorem submit_outcome_witness:
  "trim (input (initial\<lparr>input := js ''X''\<rparr>)) \<noteq> [] \<and> failing NetworkError
   \<and> messages (submit NetworkError (initial\<lparr>input := js ''X''\<rparr>)) =
      [\<lparr>role = user, msg_text = Str (js ''X'')\<rparr>, \<lparr>role = assistant, msg_text = Str fallback\<rparr>]
   \<and> sessionId (submit NetworkError (initial\<lparr>input := js ''X''\<rparr>)) = Null
   \<and> \<not> loading (submit NetworkError (initial\<lparr>input := js ''X''\<rparr>))
   \<and> \<not> failing (Replied \<lparr>status = 200, data = Str (js ''<html>'')\<rparr>)
   \<and> messages (submit (Replied \<lparr>status = 200, data = Str (js ''<html>'')\<rparr>)
        (initial\<lparr>input := js ''X''\<rparr>)) =
      [\<lparr>role = user, msg_text = Str (js ''X'')\<rparr>, \<lparr>role = assistant, msg_text = Undefined\<rparr>]
   \<and> sessionId (submit (Replied \<lparr>status = 200, data = Str (js ''<html>'')\<rparr>)
        (initial\<lparr>input := js ''X''\<rparr>)) = Undefined
   \<and> \<not> loading (submit (Replied \<lparr>status = 200, data = Str (js ''<html>'')\<rparr>)
        (initial\<lparr>input := js ''X''\<rparr>))"
proof -
  have h: "trim (input (initial\<lparr>input := js ''X''\<rparr>)) \<noteq> []"
    by (simp add: trim_def js_def is_ws_def)
  have f: "failing NetworkError"
    by simp
  have g: "\<not> failing (Replied \<lparr>status = 200, data = Str (js ''<html>'')\<rparr>)"
    by simp
  from submit_outcome [OF h, of NetworkError] f
  have 1: "messages (submit NetworkError (initial\<lparr>input := js ''X''\<rparr>)) =
      [\<lparr>role = user, msg_text = Str (js ''X'')\<rparr>, \<lparr>role = assistant, msg_text = Str fallback\<rparr>]
   \<and> sessionId (submit NetworkError (initial\<lparr>input := js ''X''\<rparr>)) = Null
   \<and> \<not> loading (submit NetworkError (initial\<lparr>input := js ''X''\<rparr>))"
    by (simp add: initial_def)
  from submit_outcome [OF h, of "Replied \<lparr>status = 200, data = Str (js ''<html>'')\<rparr>"] g
  have 2: "messages (submit (Replied \<lparr>status = 200, data = Str (js ''<html>'')\<rparr>)
        (initial\<lparr>input := js ''X''\<rparr>)) =
      [\<lparr>role = user, msg_text = Str (js ''X'')\<rparr>, \<lparr>role = assistant, msg_text = Undefined\<rparr>]
   \<and> sessionId (submit (Replied \<lparr>status = 200, data = Str (js ''<html>'')\<rparr>)
        (initial\<lparr>input := js ''X''\<rparr>)) = Undefined
   \<and> \<not> loading (submit (Replied \<lparr>status = 200, data = Str (js ''<html>'')\<rparr>)
        (initial\<lparr>input := js ''X''\<rparr>))"
    by (simp add: initial_def)
  from h f g 1 2 show ?thesis by blast
qed

section \<open>The order of the side effects\<close>

text \<open>
  C2: for every submit whose input trims non-empty, the call suspends on the request (the
  response has not resolved: no settlement is logged), and what it has done by then is, in
  this order: appended the user record with the submitted input to the transcript, cleared
  the input field, set the busy flag, and issued one request, and nothing else.
\<close>

theorem submit_effect_order:
  assumes "trim (input s) \<noteq> []"
  shows "sendMessage s = Awaiting (now (sendMessage s))
    \<and> log (now (sendMessage s)) = log s @
        [SetMessages (messages s @ [\<lparr>role = user, msg_text = Str (input s)\<rparr>]),
         SetInput [], SetLoading True,
         Post (API_BASE_URL @ js ''/chat'')
           (Obj [(js ''session_id'', sessionId s), (js ''message'', Str (input s)),
                 (js ''subject'', Str (subject s))])]
    \<and> messages (now (sendMessage s)) = messages s @ [\<lparr>role = user, msg_text = Str (input s)\<rparr>]
    \<and> input (now (sendMessage s)) = []
    \<and> loading (now (sendMessage s))
    \<and> length (posts (log (now (sendMessage s)))) = Suc (length (posts (log s)))
    \<and> settles (log (now (sendMessage s))) = settles (log s)"
  by (simp add: sendMessage_nonblank [OF assms] posts_append settles_append posts_simps settles_simps)

theorem submit_effect_order_witness:
  "trim (input (initial\<lparr>input := js ''X''\<rparr>)) \<noteq> []
   \<and> log (now (sendMessage (initial\<lparr>input := js ''X''\<rparr>))) =
        [SetMessages [\<lparr>role = user, msg_text = Str (js ''X'')\<rparr>],
         SetInput [], SetLoading True,
         Post (js ''http://localhost:8000/chat'')
           (Obj [(js ''session_id'', Null), (js ''message'', Str (js ''X'')),
                 (js ''subject'', Str (js ''Physics''))])]"
proof -
  have h: "trim (input (initial\<lparr>input := js ''X''\<rparr>)) \<noteq> []"
    by (simp add: trim_def js_def is_ws_def)
  from submit_effect_order [OF h] h show ?thesis
    by (simp add: initial_def API_BASE_URL_def js_def)
qed

section \<open>Successful exchanges\<close>

text \<open>
  C3: for every submit whose input trims non-empty and whose response has a status in
  200..299 and carries the fields \<^verbatim>\<open>session_id\<close> and \<^verbatim>\<open>text_response\<close>, the stored
  session identifier becomes the returned one, the transcript is the previous one followed
  by the user record and one assistant record with the returned text, and the busy flag ends
  false. The witness is the example of the claim: \<open>X\<close> answered by
  \<^verbatim>\<open>{session_id: "abc", text_response: "Y"}\<close> from the initial state.
\<close>

theorem submit_success:
  assumes "trim (input s) \<noteq> []"
    and "200 \<le> st" and "st < 300"
    and "map_of kvs (js ''session_id'') = Some sid"
    and "map_of kvs (js ''text_response'') = Some t"
  shows "messages (submit (Replied \<lparr>status = st, data = Obj kvs\<rparr>) s) = messages s @
      [\<lparr>role = user, msg_text = Str (input s)\<rparr>, \<lparr>role = assistant, msg_text = t\<rparr>]
    \<and> sessionId (submit (Replied \<lparr>status = st, data = Obj kvs\<rparr>) s) = sid
    \<and> \<not> loading (submit (Replied \<lparr>status = st, data = Obj kvs\<rparr>) s)"
proof -
  have a: "await_post (Replied \<lparr>status = st, data = Obj kvs\<rparr>) = Inr \<lparr>status = st, data = Obj kvs\<rparr>"
    using assms(2,3) by simp
  have m1: "member (data \<lparr>status = st, data = Obj kvs\<rparr>) (js ''session_id'') = Inr sid"
    using assms(4) by simp
  have m2: "member (data \<lparr>status = st, data = Obj kvs\<rparr>) (js ''text_response'') = Inr t"
    using assms(5) by simp
  show ?thesis
    by (simp add: submit_def sendMessage_nonblank [OF assms(1)] resume_fulfilled [OF a m1 m2])
qed

theorem submit_success_witness:
  "trim (input (initial\<lparr>input := js ''X''\<rparr>)) \<noteq> []
   \<and> messages (submit (Replied \<lparr>status = 200,
         data = Obj [(js ''session_id'', Str (js ''abc'')), (js ''text_response'', Str (js ''Y''))]\<rparr>)
       (initial\<lparr>input := js ''X''\<rparr>))
     = [\<lparr>role = user, msg_text = Str (js ''X'')\<rparr>, \<lparr>role = assistant, msg_text = Str (js ''Y'')\<rparr>]
   \<and> sessionId (submit (Replied \<lparr>status = 200,
         data = Obj [(js ''session_id'', Str (js ''abc'')), (js ''text_response'', Str (js ''Y''))]\<rparr>)
       (initial\<lparr>input := js ''X''\<rparr>)) = Str (js ''abc'')
   \<and> \<not> loading (submit (Replied \<lparr>status = 200,
         data = Obj [(js ''session_id'', Str (js ''abc'')), (js ''text_response'', Str (js ''Y''))]\<rparr>)
       (initial\<lparr>input := js ''X''\<rparr>))"
proof -
  have h: "trim (input (initial\<lparr>input := js ''X''\<rparr>)) \<noteq> []"
    by (simp add: trim_def js_def is_ws_def)
  have k1: "map_of [(js ''session_id'', Str (js ''abc'')), (js ''text_response'', Str (js ''Y''))]
      (js ''session_id'') = Some (Str (js ''abc''))"
    by (simp add: js_def)
  have k2: "map_of [(js ''session_id'', Str (js ''abc'')), (js ''text_response'', Str (js ''Y''))]
      (js ''text_response'') = Some (Str (js ''Y''))"
    by (simp add: js_def)
  from submit_success [OF h _ _ k1 k2, of 200] h show ?thesis
    by (simp add: initial_def)
qed

section \<open>The request\<close>

text \<open>
  C5: every submit whose input trims non-empty issues exactly one request, a POST to
  \<^verbatim>\<open>API_BASE_URL/chat\<close> whose body holds the stored session identifier, the submitted text
  and the selected subject; and when that exchange succeeds with session identifier \<open>sid\<close>,
  the request of the next submit (after typing \<open>x2\<close>) carries \<open>sid\<close>. In the witness the
  first request carries \<^verbatim>\<open>null\<close> and the second \<^verbatim>\<open>"abc"\<close>.
\<close>

theorem submit_request:
  assumes "trim (input s) \<noteq> []"
  shows "posts (log (submit r s)) = posts (log s) @
      [(API_BASE_URL @ js ''/chat'',
        Obj [(js ''session_id'', sessionId s), (js ''message'', Str (input s)),
             (js ''subject'', Str (subject s))])]
    \<and> (200 \<le> st \<and> st < 300 \<and> map_of kvs (js ''session_id'') = Some sid
        \<and> map_of kvs (js ''text_response'') = Some t \<and> trim x2 \<noteq> [] \<longrightarrow>
      posts (log (submit r2 (step (Change x2) (submit (Replied \<lparr>status = st, data = Obj kvs\<rparr>) s))))
       = posts (log s) @
         [(API_BASE_URL @ js ''/chat'',
           Obj [(js ''session_id'', sessionId s), (js ''message'', Str (input s)),
                (js ''subject'', Str (subject s))]),
          (API_BASE_URL @ js ''/chat'',
           Obj [(js ''session_id'', sid), (js ''message'', Str x2),
                (js ''subject'', Str (subject s))])])"
proof (intro conjI impI)
  show "posts (log (submit r s)) = posts (log s) @
      [(API_BASE_URL @ js ''/chat'',
        Obj [(js ''session_id'', sessionId s), (js ''message'', Str (input s)),
             (js ''subject'', Str (subject s))])]"
    by (rule submit_posts [OF assms])
next
  assume h: "200 \<le> st \<and> st < 300 \<and> map_of kvs (js ''session_id'') = Some sid
    \<and> map_of kvs (js ''text_response'') = Some t \<and> trim x2 \<noteq> []"
  define s1 where "s1 = submit (Replied \<lparr>status = st, data = Obj kvs\<rparr>) s"
  define s2 where "s2 = step (Change x2) s1"
  have a: "await_post (Replied \<lparr>status = st, data = Obj kvs\<rparr>) = Inr \<lparr>status = st, data = Obj kvs\<rparr>"
    using h by simp
  have m1: "member (data \<lparr>status = st, data = Obj kvs\<rparr>) (js ''session_id'') = Inr sid"
    using h by simp
  have m2: "member (data \<lparr>status = st, data = Obj kvs\<rparr>) (js ''text_response'') = Inr t"
    using h by simp
  have sid1: "sessionId s1 = sid" and sub1: "subject s1 = subject s"
    by (simp_all add: s1_def submit_def sendMessage_nonblank [OF assms]
        resume_fulfilled [OF a m1 m2])
  have p1: "posts (log s1) = posts (log s) @
      [(API_BASE_URL @ js ''/chat'',
        Obj [(js ''session_id'', sessionId s), (js ''message'', Str (input s)),
             (js ''subject'', Str (subject s))])]"
    unfolding s1_def by (rule submit_posts [OF assms])
  have f2: "input s2 = x2" "sessionId s2 = sid" "subject s2 = subject s"
    "posts (log s2) = posts (log s1)"
    by (simp_all add: s2_def setInput_def sid1 sub1 posts_append posts_simps)
  have nb: "trim (input s2) \<noteq> []"
    using h f2(1) by simp
  show "posts (log (submit r2 (step (Change x2) (submit (Replied \<lparr>status = st, data = Obj kvs\<rparr>) s))))
       = posts (log s) @
         [(API_BASE_URL @ js ''/chat'',
           Obj [(js ''session_id'', sessionId s), (js ''message'', Str (input s)),
                (js ''subject'', Str (subject s))]),
          (API_BASE_URL @ js ''/chat'',
           Obj [(js ''session_id'', sid), (js ''message'', Str x2),
                (js ''subject'', Str (subject s))])]"
    using submit_posts [OF nb, of r2] unfolding s2_def [symmetric] s1_def [symmetric]
    by (simp add: f2 p1)
qed

theorem submit_request_witness:
  "trim (input (initial\<lparr>input := js ''X''\<rparr>)) \<noteq> []
   \<and> posts (log (submit NetworkError (initial\<lparr>input := js ''X''\<rparr>))) =
      [(js ''http://localhost:8000/chat'',
        Obj [(js ''session_id'', Null), (js ''message'', Str (js ''X'')),
             (js ''subject'', Str (js ''Physics''))])]
   \<and> posts (log (submit NetworkError (step (Change (js ''X2''))
        (submit (Replied \<lparr>status = 200,
           data = Obj [(js ''session_id'', Str (js ''abc'')), (js ''text_response'', Str (js ''Y''))]\<rparr>)
         (initial\<lparr>input := js ''X''\<rparr>))))) =
      [(js ''http://localhost:8000/chat'',
        Obj [(js ''session_id'', Null), (js ''message'', Str (js ''X'')),
             (js ''subject'', Str (js ''Physics''))]),
       (js ''http://localhost:8000/chat'',
        Obj [(js ''session_id'', Str (js ''abc'')), (js ''message'', Str (js ''X2'')),
             (js ''subject'', Str (js ''Physics''))])]"
proof -
  have h: "trim (input (initial\<lparr>input := js ''X''\<rparr>)) \<noteq> []"
    by (simp add: trim_def js_def is_ws_def)
  have k: "200 \<le> (200::nat) \<and> (200::nat) < 300
    \<and> map_of [(js ''session_id'', Str (js ''abc'')), (js ''text_response'', Str (js ''Y''))]
        (js ''session_id'') = Some (Str (js ''abc''))
    \<and> map_of [(js ''session_id'', Str (js ''abc'')), (js ''text_response'', Str (js ''Y''))]
        (js ''text_response'') = Some (Str (js ''Y''))
    \<and> trim (js ''X2'') \<noteq> []"
    by (simp add: trim_def js_def is_ws_def)
  from submit_request [OF h, of NetworkError 200
      "[(js ''session_id'', Str (js ''abc'')), (js ''text_response'', Str (js ''Y''))]"
      "Str (js ''abc'')" "Str (js ''Y'')" "js ''X2''" NetworkError] h k
  show ?thesis
    by (simp add: initial_def API_BASE_URL_def js_def posts_simps)
qed

section \<open>Single flight\<close>

text \<open>
  C4 does not hold of the code: the send button is disabled while the busy flag is set, but
  \<^verbatim>\<open>handleKeyDown\<close> calls \<^verbatim>\<open>sendMessage\<close> without looking at the flag. From the initial
  state, after typing \<open>X\<close>, clicking the send button and typing \<open>Y\<close>, the busy flag is set
  and one request is in flight; a click on the send button changes nothing, but the Enter
  key issues a second request, and two exchanges are in flight.
\<close>

theorem enter_while_busy_second_request:
  "loading (run [Change (js ''X''), ClickSend, Change (js ''Y'')] initial)
   \<and> inflight (run [Change (js ''X''), ClickSend, Change (js ''Y'')] initial) = 1
   \<and> step ClickSend (run [Change (js ''X''), ClickSend, Change (js ''Y'')] initial)
       = run [Change (js ''X''), ClickSend, Change (js ''Y'')] initial
   \<and> posts (log (step (KeyDown (js ''Enter''))
        (run [Change (js ''X''), ClickSend, Change (js ''Y'')] initial))) =
       [(js ''http://localhost:8000/chat'',
         Obj [(js ''session_id'', Null), (js ''message'', Str (js ''X'')),
              (js ''subject'', Str (js ''Physics''))]),
        (js ''http://localhost:8000/chat'',
         Obj [(js ''session_id'', Null), (js ''message'', Str (js ''Y'')),
              (js ''subject'', Str (js ''Physics''))])]
   \<and> inflight (step (KeyDown (js ''Enter''))
        (run [Change (js ''X''), ClickSend, Change (js ''Y'')] initial)) = 2"
  by (simp add: handleKeyDown_def sendMessage_def Let_def setMessages_def setInput_def
      setLoading_def axios_post_def initial_def trim_def is_ws_def js_def posts_def settles_def
      inflight_def API_BASE_URL_def)

section \<open>Empty input\<close>

text \<open>
  C6: when the input field is empty or holds only whitespace, submitting does nothing at
  all: the whole state (transcript, input field, busy flag, session identifier, subject) is
  the one before, and the effects are the ones before, so no request is issued. This holds
  for the call itself, for a whole exchange, for the Enter key and for the send button.
\<close>

theorem submit_blank_noop:
  assumes "\<forall>c \<in> set (input s). is_ws c"
  shows "sendMessage s = Returned s \<and> submit r s = s
    \<and> step (KeyDown (js ''Enter'')) s = s \<and> step ClickSend s = s"
proof -
  from assms have "trim (input s) = []"
    by (simp add: trim_Nil_iff)
  then have "sendMessage s = Returned s"
    by (simp add: sendMessage_def)
  then show ?thesis
    by (simp add: submit_def handleKeyDown_def)
qed

theorem submit_blank_noop_witness:
  "trim (input (initial\<lparr>input := js ''  ''\<rparr>)) = []
    \<and> sendMessage (initial\<lparr>input := js ''  ''\<rparr>) = Returned (initial\<lparr>input := js ''  ''\<rparr>)
    \<and> submit NetworkError (initial\<lparr>input := js ''  ''\<rparr>) = initial\<lparr>input := js ''  ''\<rparr>
    \<and> posts (log (submit NetworkError (initial\<lparr>input := js ''  ''\<rparr>))) = []"
proof -
  have h: "\<forall>c \<in> set (input (initial\<lparr>input := js ''  ''\<rparr>)). is_ws c"
    by (simp add: initial_def js_def is_ws_def)
  have t: "trim (input (initial\<lparr>input := js ''  ''\<rparr>)) = []"
    by (simp add: initial_def trim_def js_def is_ws_def)
  from submit_blank_noop [OF h, of NetworkError] t show ?thesis
    by (simp add: initial_def posts_def)
qed

section \<open>The transcript\<close>

text \<open>
  C7: the transcript is append-only. Whatever events happen, the transcript before them is
  a prefix of the transcript after them, so no record is changed, removed or moved; and
  appending the messages \<open>ms\<close> one by one, with the updater the component uses, leaves the
  transcript followed by exactly \<open>ms\<close>, in that order.
\<close>

theorem transcript_append_only:
  "prefix (messages s) (messages (run es s))
   \<and> messages (fold (\<lambda>m. setMessages (\<lambda>prev. prev @ [m])) ms s) = messages s @ ms"
  by (simp add: run_messages fold_append_messages)

section \<open>Selecting a subject\<close>

text \<open>
  C8: a click on a subject button leaves the transcript, the session identifier, the busy
  flag, the input field, the requests issued and the exchanges in flight as they are; the
  stored subject becomes the button's subject, one of Physics, Chemistry, Mathematics and
  Biology; and the request of the next submit is the one that would have been sent
  otherwise, with the new subject in its \<^verbatim>\<open>subject\<close> field.
\<close>

theorem select_subject_frame:
  assumes "i < length subjects"
  shows "messages (step (ClickSubject i) s) = messages s
    \<and> sessionId (step (ClickSubject i) s) = sessionId s
    \<and> loading (step (ClickSubject i) s) = loading s
    \<and> input (step (ClickSubject i) s) = input s
    \<and> posts (log (step (ClickSubject i) s)) = posts (log s)
    \<and> settles (log (step (ClickSubject i) s)) = settles (log s)
    \<and> inflight (step (ClickSubject i) s) = inflight s
    \<and> subject (step (ClickSubject i) s) = subjects ! i
    \<and> subject (step (ClickSubject i) s)
        \<in> {js ''Physics'', js ''Chemistry'', js ''Mathematics'', js ''Biology''}
    \<and> (trim (input s) \<noteq> [] \<longrightarrow>
        posts (log (now (sendMessage (step (ClickSubject i) s)))) = posts (log s) @
          [(API_BASE_URL @ js ''/chat'',
            Obj [(js ''session_id'', sessionId s), (js ''message'', Str (input s)),
                 (js ''subject'', Str (subjects ! i))])])"
proof -
  have st: "step (ClickSubject i) s = setSubject (subjects ! i) s"
    using assms by simp
  have mem: "subjects ! i \<in> {js ''Physics'', js ''Chemistry'', js ''Mathematics'', js ''Biology''}"
    using nth_mem [OF assms] by (simp add: subjects_def)
  have frame: "messages (setSubject (subjects ! i) s) = messages s"
    "sessionId (setSubject (subjects ! i) s) = sessionId s"
    "loading (setSubject (subjects ! i) s) = loading s"
    "input (setSubject (subjects ! i) s) = input s"
    "posts (log (setSubject (subjects ! i) s)) = posts (log s)"
    "settles (log (setSubject (subjects ! i) s)) = settles (log s)"
    "subject (setSubject (subjects ! i) s) = subjects ! i"
    by (simp_all add: setSubject_def posts_append posts_simps settles_append settles_simps)
  have next_req: "posts (log (now (sendMessage (setSubject (subjects ! i) s)))) = posts (log s) @
          [(API_BASE_URL @ js ''/chat'',
            Obj [(js ''session_id'', sessionId s), (js ''message'', Str (input s)),
                 (js ''subject'', Str (subjects ! i))])]"
    if "trim (input s) \<noteq> []"
  proof -
    from that have nb: "trim (input (setSubject (subjects ! i) s)) \<noteq> []"
      by (simp add: frame)
    show ?thesis
      by (simp add: sendMessage_nonblank [OF nb] frame posts_append posts_simps)
  qed
  show ?thesis
    unfolding st using mem next_req by (simp add: frame inflight_def)
qed

theorem select_subject_frame_witness:
  "(2::nat) < length subjects
   \<and> subject (step (ClickSubject 2) (initial\<lparr>input := js ''X''\<rparr>)) = js ''Mathematics''
   \<and> messages (step (ClickSubject 2) (initial\<lparr>input := js ''X''\<rparr>)) = []
   \<and> sessionId (step (ClickSubject 2) (initial\<lparr>input := js ''X''\<rparr>)) = Null
   \<and> \<not> loading (step (ClickSubject 2) (initial\<lparr>input := js ''X''\<rparr>))
   \<and> posts (log (step (ClickSubject 2) (initial\<lparr>input := js ''X''\<rparr>))) = []
   \<and> posts (log (now (sendMessage (step (ClickSubject 2) (initial\<lparr>input := js ''X''\<rparr>))))) =
        [(js ''http://localhost:8000/chat'',
          Obj [(js ''session_id'', Null), (js ''message'', Str (js ''X'')),
               (js ''subject'', Str (js ''Mathematics''))])]"
proof -
  have h: "(2::nat) < length subjects"
    by (simp add: subjects_def)
  have nb: "trim (input (initial\<lparr>input := js ''X''\<rparr>)) \<noteq> []"
    by (simp add: trim_def js_def is_ws_def)
  have n: "subjects ! 2 = js ''Mathematics''"
    by (simp add: subjects_def)
  from select_subject_frame [OF h, of "initial\<lparr>input := js ''X''\<rparr>"] nb h show ?thesis
    unfolding n by (simp add: initial_def API_BASE_URL_def js_def posts_simps)
qed

section \<open>The initial state\<close>

text \<open>
  C10: initially the transcript is empty, the session identifier is \<^verbatim>\<open>null\<close>, the busy
  flag is false, the input field is empty and the subject is Physics. So the first submit,
  made right after typing \<open>x\<close>, sends subject Physics (and session identifier
  \<^verbatim>\<open>null\<close>); and in every run of events without a click on a subject button, every
  request issued carries subject Physics.
\<close>

theorem initial_state:
  "messages initial = [] \<and> sessionId initial = Null \<and> \<not> loading initial
   \<and> input initial = [] \<and> subject initial = js ''Physics''
   \<and> (trim x \<noteq> [] \<longrightarrow>
        posts (log (run [Change x, ClickSend] initial)) =
          [(API_BASE_URL @ js ''/chat'',
            Obj [(js ''session_id'', Null), (js ''message'', Str x),
                 (js ''subject'', Str (js ''Physics''))])])
   \<and> ((\<forall>i. ClickSubject i \<notin> set es) \<longrightarrow>
        list_all (\<lambda>(url, body). member body (js ''subject'') = Inr (Str (js ''Physics'')))
          (posts (log (run es initial))))"
proof (intro conjI impI)
  assume nb: "trim x \<noteq> []"
  have i: "input (setInput x initial) = x" "\<not> loading (setInput x initial)"
    "sessionId (setInput x initial) = Null" "subject (setInput x initial) = js ''Physics''"
    "posts (log (setInput x initial)) = []"
    by (simp_all add: setInput_def initial_def posts_simps)
  from nb have nb': "trim (input (setInput x initial)) \<noteq> []"
    by (simp add: i)
  have "posts (log (now (sendMessage (setInput x initial)))) =
          [(API_BASE_URL @ js ''/chat'',
            Obj [(js ''session_id'', Null), (js ''message'', Str x),
                 (js ''subject'', Str (js ''Physics''))])]"
    by (simp add: sendMessage_nonblank [OF nb'] i posts_append posts_simps)
  then show "posts (log (run [Change x, ClickSend] initial)) =
          [(API_BASE_URL @ js ''/chat'',
            Obj [(js ''session_id'', Null), (js ''message'', Str x),
                 (js ''subject'', Str (js ''Physics''))])]"
    by (simp add: i)
next
  assume "\<forall>i. ClickSubject i \<notin> set es"
  then show "list_all (\<lambda>(url, body). member body (js ''subject'') = Inr (Str (js ''Physics'')))
          (posts (log (run es initial)))"
    by (rule run_subject_untouched) (simp_all add: initial_def posts_simps)
qed (simp_all add: initial_def)

theorem initial_state_witness:
  "trim (js ''X'') \<noteq> []
   \<and> posts (log (run [Change (js ''X''), ClickSend] initial)) =
        [(js ''http://localhost:8000/chat'',
          Obj [(js ''session_id'', Null), (js ''message'', Str (js ''X'')),
               (js ''subject'', Str (js ''Physics''))])]
   \<and> list_all (\<lambda>(url, body). member body (js ''subject'') = Inr (Str (js ''Physics'')))
        (posts (log (run [Change (js ''X''), KeyDown (js ''Enter'')] initial)))
   \<and> length (posts (log (run [Change (js ''X''), KeyDown (js ''Enter'')] initial))) = 1"
proof -
  have nb: "trim (js ''X'') \<noteq> []"
    by (simp add: trim_def js_def is_ws_def)
  have nc: "\<forall>i. ClickSubject i \<notin> set [Change (js ''X''), KeyDown (js ''Enter'')]"
    by simp
  have len: "length (posts (log (run [Change (js ''X''), KeyDown (js ''Enter'')] initial))) = 1"
    by (simp add: handleKeyDown_def sendMessage_def Let_def setMessages_def setInput_def
        setLoading_def axios_post_def initial_def trim_def is_ws_def js_def posts_def)
  from initial_state [of "js ''X''" "[Change (js ''X''), KeyDown (js ''Enter'')]"] nb nc len
  show ?thesis
    by (simp add: API_BASE_URL_def js_def)
qed

end
